theory Spec2Isabelle
  imports Complex_Main "HOL-Library.Log_Nat"
begin

section \<open>N-dimensional arrays\<close>

text \<open>
  A numpy array is a shape and a C-contiguous (row-major) buffer. Cell values
  are exact numbers: numpy's float64 arithmetic is modelled by arithmetic on
  \<open>rat\<close> (and \<open>real\<close> for powers and logarithms), so rounding is not part of
  the model.
\<close>

record 'a ndarray =
  shape :: "nat list"
  data :: "'a list"

definition wf_array :: "'a ndarray \<Rightarrow> bool" where
  "wf_array a \<longleftrightarrow> length (data a) = prod_list (shape a)"

text \<open>Offset of a multi-index in the row-major buffer.\<close>

fun ravel :: "nat list \<Rightarrow> nat list \<Rightarrow> nat" where
  "ravel (n # ns) (i # is) = i * prod_list ns + ravel ns is"
| "ravel _ _ = 0"

definition getitem :: "'a ndarray \<Rightarrow> nat list \<Rightarrow> 'a" where
  "getitem a idx = data a ! ravel (shape a) idx"

text \<open>\<open>np.ndindex(*dims)\<close>: all multi-indices below \<open>dims\<close>, last axis fastest.\<close>

fun ndindex :: "nat list \<Rightarrow> nat list list" where
  "ndindex [] = [[]]"
| "ndindex (n # ns) = concat (map (\<lambda>i. map ((#) i) (ndindex ns)) [0..<n])"

definition in_bounds :: "nat list \<Rightarrow> nat list \<Rightarrow> bool" where
  "in_bounds dims idx \<longleftrightarrow> list_all2 (\<lambda>i n. i < n) idx dims"

text \<open>
  \<open>slice(start, stop)\<close> applied to an axis of length \<open>n\<close>, as
  \<open>slice.indices\<close> resolves it: a negative bound counts from the end, both
  bounds are clipped to the axis. The result is the first position taken and
  the number of positions.
\<close>

definition clip_index :: "nat \<Rightarrow> int \<Rightarrow> int" where
  "clip_index n i = (if i < 0 then max 0 (i + int n) else min i (int n))"

definition slice_bounds :: "nat \<Rightarrow> int \<Rightarrow> int \<Rightarrow> nat \<times> nat" where
  "slice_bounds n start stop =
     (let lo = clip_index n start;
          hi = clip_index n stop
      in (nat lo, nat (hi - lo)))"

text \<open>
  \<open>a[tuple(map(slice, start, end))]\<close>: one slice per leading axis, the axes
  without a slice are taken whole.
\<close>

definition slice_table :: "nat list \<Rightarrow> (int \<times> int) list \<Rightarrow> (nat \<times> nat) list" where
  "slice_table shp ranges =
     map2 (\<lambda>n (s, e). slice_bounds n s e) shp ranges
     @ map (\<lambda>n. (0, n)) (drop (length ranges) shp)"

definition getslice :: "'a ndarray \<Rightarrow> (int \<times> int) list \<Rightarrow> 'a ndarray" where
  "getslice a ranges =
     (let bs = slice_table (shape a) ranges;
          offs = map fst bs;
          lens = map snd bs
      in \<lparr>shape = lens,
          data = map (\<lambda>idx. getitem a (map2 (+) offs idx)) (ndindex lens)\<rparr>)"

section \<open>Errors\<close>

text \<open>
  The exceptions the modelled code raises. \<open>EmptyVolumeError\<close> is the
  \<open>ValueError("The input array is empty. ...")\<close> of \<open>FracND.__call__\<close>;
  \<open>ValueError\<close> stands for every other \<open>ValueError\<close> (raised by numpy or
  by tuple unpacking), \<open>PolyfitError\<close> for any exception raised inside
  \<open>np.polyfit\<close>.
\<close>

datatype error =
  EmptyVolumeError | ZeroDivisionError | ValueError | IndexError | OverflowError | PolyfitError

section \<open>The estimator object\<close>

text \<open>
  The attributes of a \<open>FracND\<close> instance. \<open>bins\<close> gives the number of
  equal-width bins \<open>np.histogram\<close> uses for a data set: a constant function
  for an integer \<open>bins\<close> argument, numpy's estimator for \<open>'auto'\<close>.
  The result attributes do not exist before the first call; they are
  modelled as empty lists and \<open>None\<close>.
\<close>

record FracND =
  max_box_size :: "int option"
  min_box_size :: int
  stride :: "int option"
  n_samples :: nat
  subsample :: "rat option"
  multiprocess :: bool
  histogram :: bool
  bins :: "rat list \<Rightarrow> int"
  scales :: "int list"
  Ns :: "int list"
  lacunarity_spectrum :: "rat option list"
  popt :: "(real \<times> real) option"
  pcov :: "real list list option"
  FD :: "real option"
  ls_popt :: "(real \<times> real) option"
  ls_pcov :: "real list list option"
  LD :: "real option"

definition FracND_init ::
  "int option \<Rightarrow> int \<Rightarrow> int option \<Rightarrow> nat \<Rightarrow> rat option \<Rightarrow> bool \<Rightarrow> bool
     \<Rightarrow> (rat list \<Rightarrow> int) \<Rightarrow> FracND" where
  "FracND_init mx mn st n sub mp h b =
     \<lparr>max_box_size = mx, min_box_size = mn, stride = st, n_samples = n,
      subsample = sub, multiprocess = mp, histogram = h, bins = b,
      scales = [], Ns = [], lacunarity_spectrum = [],
      popt = None, pcov = None, FD = None, ls_popt = None, ls_pcov = None, LD = None\<rparr>"

section \<open>Window statistics\<close>

text \<open>\<open>FracND.Worker.__call__\<close>: occupancy flag and mass of one window.\<close>

definition Worker :: "rat ndarray \<Rightarrow> int \<times> rat" where
  "Worker window =
     (let binary_window = map (\<lambda>x. if x > 0 then (1::int) else 0) (data window);
          touched = 1 - (if list_all (\<lambda>b. b = 0) binary_window then 1 else 0);
          mass = sum_list (data window)
      in (touched, mass))"

text \<open>Python's \<open>int(x)\<close> on a float: truncation towards zero.\<close>

definition py_int :: "rat \<Rightarrow> int" where
  "py_int q = (if q < 0 then \<lceil>q\<rceil> else \<lfloor>q\<rfloor>)"

text \<open>\<open>np.linspace(start, stop, num)\<close>.\<close>

definition linspace :: "'a::field \<Rightarrow> 'a \<Rightarrow> nat \<Rightarrow> 'a list" where
  "linspace start stop num =
     (if num = 1 then [start]
      else map (\<lambda>i. start + of_nat i * ((stop - start) / of_nat (num - 1))) [0..<num])"

text \<open>
  \<open>np.histogram(xs, bins=n, density=False)\<close> for non-empty finite data and
  \<open>n\<close> equal-width bins: the range is widened by one half on each side when
  all data are equal, every bin is half-open except the last.
\<close>

definition np_histogram :: "rat list \<Rightarrow> nat \<Rightarrow> nat list \<times> rat list" where
  "np_histogram xs n =
     (let first_edge = Min (set xs);
          last_edge = Max (set xs);
          lo = (if first_edge = last_edge then first_edge - 1 / 2 else first_edge);
          hi = (if first_edge = last_edge then last_edge + 1 / 2 else last_edge);
          edges = linspace lo hi (n + 1);
          counts = map (\<lambda>i. length (filter (\<lambda>x. edges ! i \<le> x \<and>
                      (if i = n - 1 then x \<le> edges ! (i + 1) else x < edges ! (i + 1))) xs))
                     [0..<n]
      in (counts, edges))"

text \<open>\<open>np.unique(xs, return_counts=True)\<close>.\<close>

definition np_unique :: "'a::linorder list \<Rightarrow> 'a list" where
  "np_unique xs = sort (remdups xs)"

definition np_unique_counts :: "'a::linorder list \<Rightarrow> nat list" where
  "np_unique_counts xs = map (\<lambda>v. length (filter (\<lambda>x. x = v) xs)) (np_unique xs)"

text \<open>
  Lines 106 to 119 of \<open>sliding_window_statistics\<close>: support and
  probabilities of the mass distribution. Bins of count zero are dropped and
  the counts are divided by their sum.
\<close>

definition mass_distribution :: "FracND \<Rightarrow> rat list \<Rightarrow> error + (rat list \<times> rat list)" where
  "mass_distribution self mass =
     (if histogram self then
        (if bins self mass \<le> 0 then Inl ValueError
         else
           let n = nat (bins self mass);
               (p, edges) = np_histogram mass n;
               bin_centers = map (\<lambda>i. (edges ! i + edges ! (i + 1)) / 2) [0..<n];
               bin_centers = map fst (filter (\<lambda>(c, k). k \<noteq> 0) (zip bin_centers p));
               p = filter (\<lambda>k. k \<noteq> 0) p;
               p = map (\<lambda>k. (of_nat k :: rat)) p
           in Inr (bin_centers, map (\<lambda>k. k / sum_list p) p))
      else
        let bin_centers = np_unique mass;
            p = np_unique_counts mass;
            bin_centers = map fst (filter (\<lambda>(c, k). k \<noteq> 0) (zip bin_centers p));
            p = filter (\<lambda>k. k \<noteq> 0) p;
            p = map (\<lambda>k. (of_nat k :: rat)) p
        in Inr (bin_centers, map (\<lambda>k. k / sum_list p) p))"

text \<open>
  Lines 121 to 123: \<open>var / mean**2 + 1\<close>. A zero mean makes numpy return NaN
  or Inf (with a warning, no exception): that is \<open>None\<close>.
\<close>

definition lacunarity_of :: "rat list \<times> rat list \<Rightarrow> rat option" where
  "lacunarity_of d =
     (let bin_centers = fst d;
          p = snd d;
          mean = sum_list (map2 (*) p bin_centers);
          var = sum_list (map2 (\<lambda>q c. q * (c - mean)\<^sup>2) p bin_centers)
      in if mean = 0 then None else Some (var / mean\<^sup>2 + 1))"

text \<open>
  The window positions of one scale (lines 52 and 71), and the window at a
  position (lines 80 to 83).
\<close>

definition window_counts :: "nat list \<Rightarrow> int \<Rightarrow> int \<Rightarrow> int list" where
  "window_counts shp window_size step_size =
     map (\<lambda>n. py_int (of_int (int n - window_size) / of_int step_size) + 1) shp"

definition window_at :: "'a ndarray \<Rightarrow> int \<Rightarrow> int \<Rightarrow> nat list \<Rightarrow> 'a ndarray" where
  "window_at input_array window_size step_size index =
     (let start = map (\<lambda>i. int i * step_size) index;
          end = map (\<lambda>i. i + window_size) start
      in getslice input_array (zip start end))"

text \<open>
  Lines 71 to 78: the positions that are evaluated. \<open>draws i\<close> is the outcome
  of the Bernoulli trial \<open>np.random.binomial(1, subsample)\<close> at the \<open>i\<close>-th
  window position; it is read only when subsampling is enabled with a rate
  strictly between 0 and 1 (rate 0 never draws 1, rate 1 always does).
\<close>

definition sampled_positions :: "FracND \<Rightarrow> (nat \<Rightarrow> bool) \<Rightarrow> nat list list \<Rightarrow> nat list list" where
  "sampled_positions self draws positions =
     (case subsample self of
        None \<Rightarrow> positions
      | Some r \<Rightarrow> map snd (filter (\<lambda>(i, index). r = 1 \<or> (0 < r \<and> draws i))
                             (zip [0..<length positions] positions)))"

text \<open>Lines 79 to 95: the \<open>(touched, mass)\<close> pair of every evaluated window.\<close>

definition window_results ::
  "FracND \<Rightarrow> (nat \<Rightarrow> bool) \<Rightarrow> rat ndarray \<Rightarrow> int \<Rightarrow> int \<Rightarrow> (int \<times> rat) list" where
  "window_results self draws input_array window_size step_size =
     map (\<lambda>index. Worker (window_at input_array window_size step_size index))
       (sampled_positions self draws
          (ndindex (map nat (window_counts (shape input_array) window_size step_size))))"

text \<open>
  \<open>FracND.sliding_window_statistics\<close>. Python raises \<open>ZeroDivisionError\<close> on
  a zero step or window size, \<open>np.ndindex\<close> raises on a negative count,
  \<open>np.random.binomial\<close> raises on a rate outside 0 to 1, and unpacking
  \<open>zip(*results)\<close> raises when no window was evaluated. The worker pool
  changes no result and is not modelled. When every evaluated window is
  untouched the masses are divided by zero: the unique-value branch then
  yields NaN, \<open>np.histogram\<close> raises on the non-finite range.
\<close>

definition sliding_window_statistics ::
  "FracND \<Rightarrow> (nat \<Rightarrow> bool) \<Rightarrow> rat ndarray \<Rightarrow> int \<Rightarrow> int \<Rightarrow> error + (int \<times> rat option)" where
  "sliding_window_statistics self draws input_array window_size step_size =
     (let shp = shape input_array in
      if shp \<noteq> [] \<and> (step_size = 0 \<or> window_size = 0) then Inl ZeroDivisionError
      else
        let wcs = window_counts shp window_size step_size;
            box_window_counts = window_counts shp window_size window_size;
            norm = (case subsample self of
                      None \<Rightarrow> of_int (prod_list box_window_counts) / of_int (prod_list wcs)
                    | Some r \<Rightarrow> of_int (prod_list box_window_counts) / (of_int (prod_list wcs) * r))
        in if \<exists>c \<in> set wcs. c < 0 then Inl ValueError
        else if ndindex (map nat wcs) \<noteq> []
                \<and> (case subsample self of None \<Rightarrow> False | Some r \<Rightarrow> r < 0 \<or> 1 < r)
        then Inl ValueError
        else
          let results = window_results self draws input_array window_size step_size
          in if results = [] then Inl ValueError
          else
            let touched = map fst results;
                mass = map snd results;
                N = py_int (of_int (sum_list touched) * norm)
            in if sum_list touched = 0 then
                 (if histogram self then Inl ValueError else Inr (N, None))
               else
                 (case mass_distribution self
                         (map (\<lambda>m. m / of_int (sum_list touched)) mass) of
                    Inl e \<Rightarrow> Inl e
                  | Inr d \<Rightarrow> Inr (N, lacunarity_of d)))"


text \<open>
  The lacunarity as the specification words it: only the masses of the
  windows with \<open>touched = 1\<close> enter the distribution, each divided by the
  number of touched windows.
\<close>

definition touched_only_lacunarity :: "FracND \<Rightarrow> (int \<times> rat) list \<Rightarrow> error + rat option" where
  "touched_only_lacunarity self results =
     (let touched_results = filter (\<lambda>r. fst r = 1) results;
          mass = map (\<lambda>r. snd r / of_nat (length touched_results)) touched_results
      in case mass_distribution self mass of
           Inl e \<Rightarrow> Inl e
         | Inr dd \<Rightarrow> Inr (lacunarity_of dd))"

section \<open>Power-law fit\<close>

text \<open>
  \<open>np.polyfit(x, y, 1, cov=True)\<close> is a parameter of the model: it returns
  the coefficients (slope, intercept) and the covariance matrix, or \<open>None\<close>
  when it raises.
\<close>

type_synonym polyfit = "real list \<Rightarrow> real list \<Rightarrow> ((real \<times> real) \<times> real list list) option"

text \<open>
  Lines 129 to 132 of \<open>linear_fit\<close>: the scales and values that are fitted.
  A boolean mask of the wrong length makes numpy raise \<open>IndexError\<close>.
\<close>

definition fit_series :: "real list \<Rightarrow> real list \<Rightarrow> error + (real list \<times> real list)" where
  "fit_series scales0 vals =
     (if length scales0 \<noteq> length vals \<and> vals \<noteq> [] then Inl IndexError
      else
        let scales1 = map (\<lambda>v. Min (set (map fst (filter (\<lambda>(s, x). x = v) (zip scales0 vals)))))
                          (np_unique vals);
            vals1 = np_unique vals;
            vals2 = filter (\<lambda>v. v > 0) vals1;
            scales2 = take (length vals2) scales1
        in Inr (scales2, vals2))"

definition linear_fit ::
  "polyfit \<Rightarrow> real list \<Rightarrow> real list \<Rightarrow> bool \<Rightarrow> error + ((real \<times> real) \<times> real list list)" where
  "linear_fit np_polyfit scales0 vals invert_scales =
     (case fit_series scales0 vals of
        Inl e \<Rightarrow> Inl e
      | Inr (scales2, vals2) \<Rightarrow>
          let scales3 = (if invert_scales then map (\<lambda>s. 1 / s) scales2 else scales2)
          in (case np_polyfit (map ln scales3) (map ln vals2) of
                None \<Rightarrow> Inl PolyfitError
              | Some r \<Rightarrow> Inr r))"

text \<open>
  The fitted pairs as the specification words them: for every unique value
  greater than zero, the smallest scale that produced it, with the value.
\<close>

definition claimed_fit_pairs :: "real list \<Rightarrow> real list \<Rightarrow> (real \<times> real) list" where
  "claimed_fit_pairs scales0 vals =
     map (\<lambda>v. (Min (set (map fst (filter (\<lambda>(s, x). x = v) (zip scales0 vals)))), v))
       (filter (\<lambda>v. v > 0) (np_unique vals))"

section \<open>The scale sweep\<close>

definition np_all_zero :: "rat ndarray \<Rightarrow> bool" where
  "np_all_zero a = list_all (\<lambda>x. x = 0) (data a)"

text \<open>
  Line 147: \<open>int(np.floor(np.log2(np.min(shape))))\<close>. \<open>np.min\<close> raises on the
  empty shape of a 0-dimensional array, \<open>int\<close> raises on the \<open>-inf\<close> that a
  zero dimension gives.
\<close>

definition default_max_box_size :: "nat list \<Rightarrow> error + int" where
  "default_max_box_size shp =
     (if shp = [] then Inl ValueError
      else if Min (set shp) = 0 then Inl OverflowError
      else Inr (int (floorlog 2 (Min (set shp))) - 1))"

text \<open>Lines 148 and 149: floored powers of two, then \<open>np.unique\<close>.\<close>

definition scale_sequence :: "int \<Rightarrow> int \<Rightarrow> nat \<Rightarrow> int list" where
  "scale_sequence max_exp min_exp n =
     np_unique (map (\<lambda>e. \<lfloor>2 powr e\<rfloor>) (linspace (of_int max_exp :: real) (of_int min_exp) n))"

text \<open>
  Lines 155 to 163: the loop over the scales. \<open>draws j i\<close> is the Bernoulli
  outcome at the \<open>i\<close>-th window position of the \<open>j\<close>-th scale. An exception
  leaves the attributes as they are at that moment.
\<close>

fun sweep :: "(nat \<Rightarrow> nat \<Rightarrow> bool) \<Rightarrow> rat ndarray \<Rightarrow> nat \<Rightarrow> int list \<Rightarrow> FracND \<Rightarrow> FracND \<times> error option" where
  "sweep draws input_array j [] self = (self, None)"
| "sweep draws input_array j (scale # rest) self =
     (let step_size = (case stride self of None \<Rightarrow> scale | Some st \<Rightarrow> st)
      in case sliding_window_statistics self (draws j) input_array scale step_size of
           Inl e \<Rightarrow> (self, Some e)
         | Inr (N, lacunarity) \<Rightarrow>
             sweep draws input_array (Suc j) rest
               (self\<lparr>Ns := Ns self @ [N],
                     lacunarity_spectrum := lacunarity_spectrum self @ [lacunarity]\<rparr>))"

text \<open>Lines 141 to 166 of \<open>FracND.__call__\<close>: everything before the fits.\<close>

definition scan :: "(nat \<Rightarrow> nat \<Rightarrow> bool) \<Rightarrow> FracND \<Rightarrow> rat ndarray \<Rightarrow> FracND \<times> error option" where
  "scan draws self input_array =
     (if np_all_zero input_array then (self, Some EmptyVolumeError)
      else
        case (case max_box_size self of
                None \<Rightarrow> default_max_box_size (shape input_array)
              | Some m \<Rightarrow> Inr m) of
          Inl e \<Rightarrow> (self, Some e)
        | Inr m \<Rightarrow>
            let self1 = self\<lparr>max_box_size := Some m\<rparr>;
                self2 = self1\<lparr>scales := scale_sequence m (min_box_size self1) (n_samples self1)\<rparr>;
                self3 = self2\<lparr>Ns := [], lacunarity_spectrum := []\<rparr>
            in sweep draws input_array 0 (scales self3) self3)"

text \<open>
  \<open>FracND.__call__\<close>. A NaN in the lacunarity spectrum makes \<open>np.min\<close> raise
  in \<open>linear_fit\<close> (no value equals NaN, the selection is empty); an
  infinite lacunarity, which needs cells of both signs, is treated the same
  way.
\<close>

definition analyze :: "polyfit \<Rightarrow> (nat \<Rightarrow> nat \<Rightarrow> bool) \<Rightarrow> FracND \<Rightarrow> rat ndarray \<Rightarrow> FracND \<times> error option" where
  "analyze np_polyfit draws self input_array =
     (case scan draws self input_array of
        (self1, Some e) \<Rightarrow> (self1, Some e)
      | (self1, None) \<Rightarrow>
          (case linear_fit np_polyfit (map of_int (scales self1)) (map of_int (Ns self1)) True of
             Inl e \<Rightarrow> (self1, Some e)
           | Inr (po, pc) \<Rightarrow>
               let self2 = self1\<lparr>popt := Some po, pcov := Some pc, FD := Some (fst po)\<rparr>
               in if None \<in> set (lacunarity_spectrum self2) then (self2, Some ValueError)
                  else
                    (case linear_fit np_polyfit (map of_int (scales self2))
                            (map (\<lambda>l. of_rat (the l)) (lacunarity_spectrum self2)) False of
                       Inl e \<Rightarrow> (self2, Some e)
                     | Inr (lpo, lpc) \<Rightarrow>
                         (self2\<lparr>ls_popt := Some lpo, ls_pcov := Some lpc, LD := Some (fst lpo)\<rparr>,
                          None))))"

section \<open>Greyscale images and cropping\<close>

text \<open>
  \<open>greyscale_to_binary\<close>. \<open>np.min\<close> raises on an empty array. On a constant
  array the normalisation is 0/0, the cast of NaN to int gives the most
  negative integer and \<open>np.zeros\<close> raises on the negative dimension. A
  negative last index counts from the end of the axis and raises
  \<open>IndexError\<close> when it is below minus its length.
\<close>

definition quantize :: "rat list \<Rightarrow> int \<Rightarrow> int list" where
  "quantize xs levels =
     (let mn = Min (set xs); mx = Max (set xs)
      in map (\<lambda>x. py_int ((x - mn) / (mx - mn) * of_int levels)) xs)"

definition greyscale_to_binary :: "rat ndarray \<Rightarrow> int \<Rightarrow> error + nat ndarray" where
  "greyscale_to_binary array levels =
     (if data array = [] then Inl ValueError
      else if Max (set (data array)) = Min (set (data array)) then Inl ValueError
      else
        let pixel_values = quantize (data array) levels;
            max_pixel_value = Max (set pixel_values);
            depth = nat (max_pixel_value + 1)
        in if \<exists>q \<in> set pixel_values. q < - int depth then Inl IndexError
           else Inr \<lparr>shape = shape array @ [depth],
                     data = concat (map (\<lambda>q. map (\<lambda>k. if int k = (if q < 0 then q + int depth else q)
                                                      then 1 else 0) [0..<depth])
                                        pixel_values)\<rparr>)"

text \<open>\<open>np.nonzero\<close>, as the list of the multi-indices of the non-zero cells.\<close>

definition np_nonzero :: "'a::zero ndarray \<Rightarrow> nat list list" where
  "np_nonzero a = filter (\<lambda>idx. getitem a idx \<noteq> 0) (ndindex (shape a))"

text \<open>
  \<open>crop_segmentation(array, return_indices=True)\<close>. \<open>np.min\<close> raises when no
  cell is non-zero; \<open>minima[2]\<close> raises on an array of fewer than three axes.
\<close>

definition crop_segmentation_indices :: "'a::zero ndarray \<Rightarrow> error + ('a ndarray \<times> nat list \<times> nat list)" where
  "crop_segmentation_indices array =
     (let nonzero = np_nonzero array in
      if nonzero = [] then Inl ValueError
      else if length (shape array) < 3 then Inl IndexError
      else
        let minima = map (\<lambda>ax. Min (set (map (\<lambda>idx. idx ! ax) nonzero))) [0..<length (shape array)];
            maxima = map (\<lambda>ax. Max (set (map (\<lambda>idx. idx ! ax) nonzero)) + 1) [0..<length (shape array)];
            cropped_array = getslice array (map (\<lambda>ax. (int (minima ! ax), int (maxima ! ax))) [0..<3])
        in Inr (cropped_array, minima, maxima))"

definition crop_segmentation :: "'a::zero ndarray \<Rightarrow> error + 'a ndarray" where
  "crop_segmentation array =
     (case crop_segmentation_indices array of Inl e \<Rightarrow> Inl e | Inr (c, mn, mx) \<Rightarrow> Inr c)"

section \<open>Example inputs\<close>

text \<open>
  A default estimator (stride 1), a box-counting estimator (\<open>stride=None\<close>),
  and three small volumes.
\<close>

definition est_default :: FracND where
  "est_default = FracND_init None 1 (Some 1) 20 None True False (\<lambda>_. 10)"


definition sparse_line :: "rat ndarray" where
  "sparse_line = \<lparr>shape = [4], data = [1, 0, 0, 0]\<rparr>"


definition half_line :: "rat ndarray" where
  "half_line = \<lparr>shape = [2], data = [1, 0]\<rparr>"

section \<open>Indexing lemmas\<close>

lemma length_ndindex: "length (ndindex ns) = prod_list ns"
  by (induction ns) (simp_all add: length_concat comp_def sum_list_triv)

lemma set_ndindex: "set (ndindex ns) = {idx. in_bounds ns idx}"
proof (induction ns)
  case Nil
  show ?case by (auto simp: in_bounds_def)
next
  case (Cons n ns)
  show ?case
    using Cons.IH by (auto simp: in_bounds_def list_all2_Cons2)
qed

lemma concat_shifted_upt:
  "concat (map (\<lambda>i. map (\<lambda>k. i * p + k) [0..<p]) [0..<n]) = [0..<n * p]"
proof (induction n)
  case 0
  show ?case by simp
next
  case (Suc n)
  have a: "map (\<lambda>k. n * p + k) [0..<p] = [n * p..<n * p + p]"
    using map_add_upt [of "n * p" p] by (simp add: add.commute)
  have b: "[0..<Suc n * p] = [0..<n * p] @ [n * p..<n * p + p]"
    using upt_add_eq_append [of 0 "n * p" p] by (simp add: add.commute)
  show ?case
    unfolding b by (simp add: a Suc.IH)
qed

lemma ravel_ndindex: "map (ravel ns) (ndindex ns) = [0..<prod_list ns]"
proof (induction ns)
  case Nil
  show ?case by simp
next
  case (Cons n ns)
  have "map (ravel (n # ns)) (ndindex (n # ns))
        = concat (map (\<lambda>i. map (\<lambda>k. i * prod_list ns + k) (map (ravel ns) (ndindex ns))) [0..<n])"
    by (simp add: map_concat comp_def)
  also have "\<dots> = [0..<n * prod_list ns]"
    unfolding Cons.IH by (rule concat_shifted_upt)
  finally show ?case by simp
qed

lemma distinct_ndindex: "distinct (ndindex ns)"
proof -
  have "distinct (map (ravel ns) (ndindex ns))"
    by (simp add: ravel_ndindex)
  then show ?thesis by (simp add: distinct_map)
qed

lemma ravel_less: "in_bounds ns idx \<Longrightarrow> ravel ns idx < prod_list ns"
proof -
  assume "in_bounds ns idx"
  then have "idx \<in> set (ndindex ns)" by (simp add: set_ndindex)
  then have "ravel ns idx \<in> set (map (ravel ns) (ndindex ns))" by simp
  then show ?thesis by (simp add: ravel_ndindex)
qed

lemma ndindex_nth_ravel:
  assumes "in_bounds ns idx"
  shows "ndindex ns ! ravel ns idx = idx"
proof -
  from assms have "idx \<in> set (ndindex ns)" by (simp add: set_ndindex)
  then obtain k where k: "k < length (ndindex ns)" "ndindex ns ! k = idx"
    by (auto simp: in_set_conv_nth)
  have "map (ravel ns) (ndindex ns) ! k = [0..<prod_list ns] ! k"
    by (simp add: ravel_ndindex)
  with k have "ravel ns idx = k"
    by (simp add: length_ndindex)
  with k show ?thesis by simp
qed

lemma map_getitem_ndindex:
  assumes "wf_array a"
  shows "map (getitem a) (ndindex (shape a)) = data a"
proof -
  have "map (getitem a) (ndindex (shape a))
        = map ((!) (data a)) (map (ravel (shape a)) (ndindex (shape a)))"
    by (simp add: getitem_def comp_def)
  also have "\<dots> = map ((!) (data a)) [0..<length (data a)]"
    using assms by (simp add: ravel_ndindex wf_array_def)
  finally show ?thesis by (simp add: map_nth)
qed

subsection \<open>Slices\<close>





lemma getslice_shape: "shape (getslice a ranges) = map snd (slice_table (shape a) ranges)"
  by (simp add: getslice_def Let_def)

lemma getslice_data:
  "data (getslice a ranges) =
     map (\<lambda>idx. getitem a (map2 (+) (map fst (slice_table (shape a) ranges)) idx))
       (ndindex (map snd (slice_table (shape a) ranges)))"
  by (simp add: getslice_def Let_def)

lemma wf_getslice: "wf_array (getslice a ranges)"
  by (simp add: wf_array_def getslice_shape getslice_data length_ndindex)



lemma ravel_less_length:
  assumes b: "in_bounds lens idx"
  shows "ravel lens idx < length (ndindex lens)"
  using ravel_less [OF b] by (simp add: length_ndindex)

lemma map_ndindex_nth:
  assumes b: "in_bounds lens idx"
  shows "map f (ndindex lens) ! ravel lens idx = f idx"
  using nth_map [OF ravel_less_length [OF b], of f] by (simp add: ndindex_nth_ravel [OF b])

lemma getitem_getslice:
  assumes "in_bounds (shape (getslice a ranges)) idx"
  shows "getitem (getslice a ranges) idx
         = getitem a (map2 (+) (map fst (slice_table (shape a) ranges)) idx)"
proof -
  from assms have b: "in_bounds (map snd (slice_table (shape a) ranges)) idx"
    unfolding getslice_shape .
  have "getitem (getslice a ranges) idx
        = data (getslice a ranges) ! ravel (map snd (slice_table (shape a) ranges)) idx"
    unfolding getitem_def getslice_shape ..
  also have "\<dots> = getitem a (map2 (+) (map fst (slice_table (shape a) ranges)) idx)"
    by (simp only: getslice_data map_ndindex_nth [OF b])
  finally show ?thesis .
qed

section \<open>Windows that fit the volume\<close>

lemma py_int_nonneg: "0 \<le> q \<Longrightarrow> py_int q = \<lfloor>q\<rfloor>"
  by (simp add: py_int_def)

lemma window_counts_fit:
  assumes "1 \<le> d" "\<forall>n \<in> set shp. s \<le> int n"
  shows "window_counts shp s d = map (\<lambda>n. (int n - s) div d + 1) shp"
proof -
  have *: "py_int (of_int (int n - s) / of_int d) + 1 = (int n - s) div d + 1"
    if "n \<in> set shp" for n
  proof -
    from that assms have "0 \<le> int n - s" "0 < d" by auto
    then have "(0::rat) \<le> of_int (int n - s) / of_int d"
      by (intro divide_nonneg_pos) simp_all
    then show ?thesis
      by (simp only: py_int_nonneg floor_divide_of_int_eq)
  qed
  show ?thesis
    unfolding window_counts_def by (rule map_cong [OF refl]) (rule *)
qed


lemma window_at_getslice:
  "window_at a s d index = getslice a (map (\<lambda>i. (int i * d, int i * d + s)) index)"
  by (simp add: window_at_def Let_def zip_map_map zip_same_conv_map comp_def)

lemma position_fits:
  assumes "1 \<le> d" "s \<le> int n" "i < nat ((int n - s) div d + 1)"
  shows "int i * d + s \<le> int n"
proof -
  from assms have "int i \<le> (int n - s) div d" by linarith
  then have "int i * d \<le> ((int n - s) div d) * d"
    using assms(1) by (simp add: mult_right_mono)
  moreover have "((int n - s) div d) * d + (int n - s) mod d = int n - s"
    by (rule div_mult_mod_eq)
  moreover have "0 \<le> (int n - s) mod d"
    using assms(1) by simp
  ultimately show ?thesis by linarith
qed

lemma slice_bounds_inside:
  assumes "0 \<le> lo" "0 \<le> s" "lo + s \<le> int n"
  shows "slice_bounds n lo (lo + s) = (nat lo, nat s)"
  using assms by (simp add: slice_bounds_def clip_index_def Let_def)

lemma slice_table_windows:
  assumes "1 \<le> d" "0 \<le> s"
    and "list_all2 (\<lambda>i n. int i * d + s \<le> int n) index shp"
  shows "slice_table shp (map (\<lambda>i. (int i * d, int i * d + s)) index)
         = map (\<lambda>i. (nat (int i * d), nat s)) index"
  using assms(3)
proof (induction index shp rule: list_all2_induct)
  case Nil
  show ?case by (simp add: slice_table_def)
next
  case (Cons i index n shp)
  have "slice_bounds n (int i * d) (int i * d + s) = (nat (int i * d), nat s)"
    using assms(1,2) Cons.hyps by (intro slice_bounds_inside) simp_all
  moreover have "length index = length shp"
    using Cons.hyps by (simp add: list_all2_lengthD)
  ultimately show ?case
    using Cons.IH by (simp add: slice_table_def)
qed

lemma positions_fit:
  assumes "1 \<le> d" "\<forall>n \<in> set shp. s \<le> int n"
    and "index \<in> set (ndindex (map nat (window_counts shp s d)))"
  shows "list_all2 (\<lambda>i n. int i * d + s \<le> int n) index shp"
proof -
  from assms(3) have "list_all2 (\<lambda>i n. i < nat ((int n - s) div d + 1)) index shp"
    unfolding window_counts_fit [OF assms(1,2)] set_ndindex
    by (simp add: in_bounds_def list_all2_map2)
  then have "\<forall>k < length index. index ! k < nat ((int (shp ! k) - s) div d + 1)"
    and len: "length index = length shp"
    by (simp_all add: list_all2_conv_all_nth)
  then have "\<forall>k < length index. int (index ! k) * d + s \<le> int (shp ! k)"
    using assms(1,2) by (auto intro!: position_fits)
  with len show ?thesis
    by (simp add: list_all2_conv_all_nth)
qed

lemma window_shape:
  assumes "1 \<le> d" "0 \<le> s" "\<forall>n \<in> set shp. s \<le> int n" "shape a = shp"
    and "index \<in> set (ndindex (map nat (window_counts shp s d)))"
  shows "shape (window_at a s d index) = replicate (length shp) (nat s)"
proof -
  have fit: "list_all2 (\<lambda>i n. int i * d + s \<le> int n) index shp"
    by (rule positions_fit [OF assms(1,3,5)])
  then have "length index = length shp"
    by (rule list_all2_lengthD)
  then show ?thesis
    unfolding window_at_getslice getslice_shape assms(4)
      slice_table_windows [OF assms(1,2) fit]
    by (simp add: comp_def map_replicate_const)
qed


lemma window_size:
  assumes "1 \<le> d" "0 \<le> s" "\<forall>n \<in> set (shape a). s \<le> int n"
    and "index \<in> set (ndindex (map nat (window_counts (shape a) s d)))"
  shows "length (data (window_at a s d index)) = nat s ^ length (shape a)"
proof -
  have "wf_array (window_at a s d index)"
    unfolding window_at_getslice by (rule wf_getslice)
  then show ?thesis
    unfolding wf_array_def window_shape [OF assms(1,2,3) refl assms(4)]
    by (simp add: prod_list_replicate)
qed



section \<open>The box count\<close>







lemma Worker_touched_range: "fst (Worker w) = 0 \<or> fst (Worker w) = 1"
  by (simp add: Worker_def Let_def)








section \<open>Filled solids\<close>













section \<open>Homogeneous volumes\<close>








lemma linspace_nth:
  assumes "0 < n" "i \<le> n"
  shows "linspace lo hi (n + 1) ! i = lo + of_nat i * ((hi - lo) / of_nat n)"
proof -
  have len: "i < length [0..<Suc n]" using assms(2) by simp
  have "[0..<Suc n] ! i = i"
    using assms(2) nth_upt [of 0 i "Suc n"] by simp
  then have "map (\<lambda>i. lo + of_nat i * ((hi - lo) / of_nat n)) [0..<Suc n] ! i
        = lo + of_nat i * ((hi - lo) / of_nat n)"
    unfolding nth_map [OF len] by (simp only:)
  then show ?thesis
    using assms(1) by (simp add: linspace_def del: upt_Suc)
qed

lemma middle_bin:
  fixes m :: rat
  assumes "0 < n" "i < n"
  shows "(m - 1 / 2 + of_nat i * (1 / of_nat n) \<le> m
          \<and> (if i = n - 1 then m \<le> m - 1 / 2 + of_nat (i + 1) * (1 / of_nat n)
               else m < m - 1 / 2 + of_nat (i + 1) * (1 / of_nat n)))
         \<longleftrightarrow> i = n div 2"
proof -
  have n: "(0::rat) < of_nat n" using assms(1) by simp
  have lo: "m - 1 / 2 + of_nat i * (1 / of_nat n) \<le> m \<longleftrightarrow> 2 * i \<le> n"
  proof -
    have "m - 1 / 2 + of_nat i * (1 / of_nat n) \<le> m \<longleftrightarrow> (of_nat i :: rat) / of_nat n \<le> 1 / 2"
      by auto
    also have "\<dots> \<longleftrightarrow> (of_nat (2 * i) :: rat) \<le> of_nat n"
      using n by (simp add: field_simps)
    also have "\<dots> \<longleftrightarrow> 2 * i \<le> n"
      by (rule of_nat_le_iff)
    finally show ?thesis .
  qed
  have hi: "m < m - 1 / 2 + of_nat (i + 1) * (1 / of_nat n) \<longleftrightarrow> n < 2 * (i + 1)"
  proof -
    have "m < m - 1 / 2 + of_nat (i + 1) * (1 / of_nat n)
          \<longleftrightarrow> 1 / 2 < (of_nat (i + 1) :: rat) / of_nat n"
      by auto
    also have "\<dots> \<longleftrightarrow> (of_nat n :: rat) < of_nat (2 * (i + 1))"
      using n by (simp add: field_simps)
    also have "\<dots> \<longleftrightarrow> n < 2 * (i + 1)"
      by (rule of_nat_less_iff)
    finally show ?thesis .
  qed
  have last: "m \<le> m - 1 / 2 + of_nat (n - 1 + 1) * (1 / of_nat n)"
    using assms(1) by simp
  show ?thesis
  proof (cases "i = n - 1")
    case True
    then show ?thesis
      using lo last assms by auto
  next
    case False
    then show ?thesis
      using lo hi assms by auto
  qed
qed

lemma histogram_replicate:
  assumes "0 < k" "0 < n"
  shows "np_histogram (replicate k m) n
         = (map (\<lambda>i. if i = n div 2 then k else 0) [0..<n],
            linspace (m - 1 / 2) (m + 1 / 2) (n + 1))"
proof -
  let ?edges = "linspace (m - 1 / 2) (m + 1 / 2) (n + 1)"
  have s: "set (replicate k m) = {m}" using assms(1) by auto
  have cnt: "length (filter (\<lambda>x. ?edges ! i \<le> x \<and>
                (if i = n - 1 then x \<le> ?edges ! (i + 1) else x < ?edges ! (i + 1)))
               (replicate k m)) = (if i = n div 2 then k else 0)"
    if "i \<in> set [0..<n]" for i
  proof -
    from that have i: "i < n" by simp
    have e0: "?edges ! i = m - 1 / 2 + of_nat i * (1 / of_nat n)"
      using linspace_nth [OF assms(2), of i "m - 1 / 2" "m + 1 / 2"] i by simp
    have e1: "?edges ! (i + 1) = m - 1 / 2 + of_nat (i + 1) * (1 / of_nat n)"
      using linspace_nth [OF assms(2), of "i + 1" "m - 1 / 2" "m + 1 / 2"] i by simp
    show ?thesis
      unfolding filter_replicate e0 e1 using middle_bin [OF assms(2) i, of m]
      by (simp only: length_replicate list.size if_distrib [of length] cong: if_cong)
  qed
  have "map (\<lambda>i. length (filter (\<lambda>x. ?edges ! i \<le> x \<and>
                (if i = n - 1 then x \<le> ?edges ! (i + 1) else x < ?edges ! (i + 1)))
               (replicate k m))) [0..<n]
        = map (\<lambda>i. if i = n div 2 then k else 0) [0..<n]"
    by (rule map_cong [OF refl]) (rule cnt)
  then show ?thesis
    unfolding np_histogram_def Let_def s by (simp only: Min_singleton Max_singleton simp_thms if_True)
qed











section \<open>The mass distribution\<close>

lemma zip_filter_length:
  "length cs = length ks \<Longrightarrow>
   length (filter (\<lambda>(c, k). P k) (zip cs ks)) = length (filter P ks)"
  by (induction cs ks rule: list_induct2) simp_all

lemma sum_list_nonzero: "sum_list (filter (\<lambda>k. k \<noteq> 0) ks) = sum_list (ks :: nat list)"
  by (induction ks) simp_all

lemma sum_list_divide:
  "sum_list (map (\<lambda>k. k / S) ys) = sum_list ys / (S :: rat)"
  by (induction ys) (simp_all add: add_divide_distrib)

lemma normalised_counts:
  fixes ks :: "nat list"
  assumes "0 < sum_list ks"
  defines "p \<equiv> map (\<lambda>k. k / sum_list (map of_nat (filter (\<lambda>k. k \<noteq> 0) ks)))
                 (map (of_nat :: nat \<Rightarrow> rat) (filter (\<lambda>k. k \<noteq> 0) ks))"
  shows "sum_list p = 1" and "\<forall>q \<in> set p. 0 < q"
proof -
  let ?ks = "filter (\<lambda>k. k \<noteq> 0) ks"
  let ?S = "sum_list (map (of_nat :: nat \<Rightarrow> rat) ?ks)"
  have S: "?S = of_nat (sum_list ks)"
    by (simp only: sum_list_nonzero sum_list_of_nat)
  then have pos: "0 < ?S" using assms(1) by simp
  have "sum_list p = ?S / ?S"
    unfolding p_def by (rule sum_list_divide)
  then show "sum_list p = 1" using pos by simp
  show "\<forall>q \<in> set p. 0 < q"
    unfolding p_def using pos by (auto simp del: neq0_conv)
qed


lemma unique_counts_total: "sum_list (np_unique_counts xs) = length xs"
proof -
  have "sum_list (np_unique_counts xs)
        = sum_list (map (\<lambda>v. count_list xs v) (np_unique xs))"
    unfolding np_unique_counts_def
    by (simp add: count_list_eq_length_filter eq_commute)
  also have "\<dots> = sum (\<lambda>v. count_list xs v) (set xs)"
    unfolding np_unique_def
    by (simp add: sum_list_distinct_conv_sum_set)
  also have "\<dots> = length xs"
    by (rule sum_count_set) simp_all
  finally show ?thesis .
qed

lemma unique_counts_nonzero: "\<forall>k \<in> set (np_unique_counts xs). k \<noteq> 0"
proof
  fix k
  assume "k \<in> set (np_unique_counts xs)"
  then obtain v where "v \<in> set xs" "k = length (filter (\<lambda>x. x = v) xs)"
    by (auto simp: np_unique_counts_def np_unique_def)
  then show "k \<noteq> 0"
    by (auto simp: filter_empty_conv)
qed

lemma filter_all: "\<forall>x \<in> set xs. P x \<Longrightarrow> filter P xs = xs"
  by (induction xs) simp_all

lemma unique_distribution:
  assumes "\<not> histogram self" "xs \<noteq> []"
  shows "\<exists>p. mass_distribution self xs = Inr (np_unique xs, p) \<and> length p = length (np_unique xs)
            \<and> sum_list p = 1 \<and> (\<forall>q \<in> set p. 0 < q)"
proof -
  let ?ks = "np_unique_counts xs"
  have len: "length (np_unique xs) = length ?ks"
    by (simp add: np_unique_counts_def)
  have f1: "filter (\<lambda>k. k \<noteq> 0) ?ks = ?ks"
    by (rule filter_all [OF unique_counts_nonzero])
  have "\<forall>ck \<in> set (zip (np_unique xs) ?ks). (\<lambda>(c, k). k \<noteq> 0) ck"
    using unique_counts_nonzero [of xs] by (auto dest: set_zip_rightD)
  then have f2: "filter (\<lambda>(c, k). k \<noteq> 0) (zip (np_unique xs) ?ks) = zip (np_unique xs) ?ks"
    by (rule filter_all)
  have pos: "0 < sum_list ?ks"
    using assms(2) by (simp add: unique_counts_total)
  let ?p = "map (\<lambda>k. k / sum_list (map of_nat (filter (\<lambda>k. k \<noteq> 0) ?ks)))
                 (map (of_nat :: nat \<Rightarrow> rat) (filter (\<lambda>k. k \<noteq> 0) ?ks))"
  have "mass_distribution self xs = Inr (np_unique xs, ?p)"
    using assms(1) len by (simp add: mass_distribution_def Let_def f1 f2 del: neq0_conv)
  moreover have "length ?p = length (np_unique xs)"
    by (simp only: f1 len length_map)
  ultimately show ?thesis
    using normalised_counts [OF pos] by blast
qed

lemma length_histogram: "length (fst (np_histogram xs n)) = n"
  by (simp add: np_histogram_def Let_def)

lemma positive_member_sum:
  fixes ks :: "nat list"
  assumes "k \<in> set ks" "0 < k"
  shows "0 < sum_list ks"
  using member_le_sum_list [OF assms(1)] assms(2) by simp

lemma constant_list:
  fixes xs :: "rat list"
  assumes "xs \<noteq> []" "Min (set xs) = Max (set xs)"
  shows "xs = replicate (length xs) (Min (set xs))"
proof -
  have "x = Min (set xs)" if "x \<in> set xs" for x
  proof -
    have "Min (set xs) \<le> x" "x \<le> Max (set xs)"
      using that by simp_all
    then show ?thesis using assms(2) by simp
  qed
  then show ?thesis
    by (simp add: replicate_length_same)
qed

lemma histogram_total_pos:
  assumes "xs \<noteq> []" "0 < n"
  shows "0 < sum_list (fst (np_histogram xs n))"
proof (cases "Min (set xs) = Max (set xs)")
  case True
  let ?k = "length xs"
  have k: "0 < ?k" using assms(1) by simp
  have "np_histogram xs n = np_histogram (replicate ?k (Min (set xs))) n"
    using constant_list [OF assms(1) True] by simp
  then have "fst (np_histogram xs n) = map (\<lambda>i. if i = n div 2 then ?k else 0) [0..<n]"
    unfolding histogram_replicate [OF k assms(2)] by simp
  moreover have "?k \<in> set (map (\<lambda>i. if i = n div 2 then ?k else 0) [0..<n])"
    using assms(2) by (auto simp: image_iff intro!: bexI [of _ "n div 2"])
  ultimately show ?thesis
    using positive_member_sum [OF _ k] by simp
next
  case False
  let ?lo = "Min (set xs)" and ?hi = "Max (set xs)"
  let ?edges = "linspace ?lo ?hi (n + 1)"
  have less: "?lo < ?hi"
    using False assms(1) by (simp add: order_less_le)
  have en: "?edges ! n = ?hi"
    using linspace_nth [OF assms(2), of n ?lo ?hi] assms(2) by simp
  have "?edges ! (n - 1) = ?lo + of_nat (n - 1) * ((?hi - ?lo) / of_nat n)"
    using linspace_nth [OF assms(2), of "n - 1" ?lo ?hi] by simp
  moreover have "of_nat (n - 1) * ((?hi - ?lo) / of_nat n) \<le> (?hi - ?lo)"
  proof -
    have "(of_nat (n - 1) :: rat) / of_nat n \<le> 1"
      using assms(2) by (simp add: divide_le_eq_1)
    then have "(of_nat (n - 1) / of_nat n) * (?hi - ?lo) \<le> 1 * (?hi - ?lo)"
      using less by (intro mult_right_mono) simp_all
    then show ?thesis by (simp add: mult.commute)
  qed
  ultimately have e1: "?edges ! (n - 1) \<le> ?hi" by linarith
  have mem: "?hi \<in> set xs" using assms(1) by simp
  let ?P = "\<lambda>x. ?edges ! (n - 1) \<le> x \<and> x \<le> ?edges ! (n - 1 + 1)"
  have "?hi \<in> set (filter ?P xs)"
    using mem e1 en assms(2) by simp
  then have "0 < length (filter ?P xs)"
    by (metis length_pos_if_in_set)
  moreover have "length (filter ?P xs) \<in> set (fst (np_histogram xs n))"
  proof -
    have "n - 1 \<in> set [0..<n]" using assms(2) by simp
    then show ?thesis
      unfolding np_histogram_def Let_def using False
      by (auto simp: image_iff intro!: bexI [of _ "n - 1"])
  qed
  ultimately show ?thesis
    by (rule positive_member_sum [rotated])
qed


lemma histogram_distribution:
  assumes "histogram self" "0 < bins self xs" "xs \<noteq> []"
  shows "\<exists>cs p. mass_distribution self xs = Inr (cs, p) \<and> length p = length cs
            \<and> sum_list p = 1 \<and> (\<forall>q \<in> set p. 0 < q)"
proof -
  let ?n = "nat (bins self xs)"
  obtain counts edges where h: "np_histogram xs ?n = (counts, edges)"
    by (cases "np_histogram xs ?n")
  have n: "0 < ?n" using assms(2) by simp
  have len: "length counts = ?n"
    using length_histogram [of xs ?n] h by simp
  have pos: "0 < sum_list counts"
    using histogram_total_pos [OF assms(3) n] h by simp
  let ?centers = "map (\<lambda>i. (edges ! i + edges ! (i + 1)) / 2) [0..<?n]"
  let ?cs = "map fst (filter (\<lambda>(c, k). k \<noteq> 0) (zip ?centers counts))"
  let ?p = "map (\<lambda>k. k / sum_list (map of_nat (filter (\<lambda>k. k \<noteq> 0) counts)))
                 (map (of_nat :: nat \<Rightarrow> rat) (filter (\<lambda>k. k \<noteq> 0) counts))"
  have "mass_distribution self xs = Inr (?cs, ?p)"
    using assms(1,2) by (simp add: mass_distribution_def Let_def h del: neq0_conv)
  moreover have "length ?p = length ?cs"
    using zip_filter_length [of ?centers counts "\<lambda>k. k \<noteq> 0"] len
    by (simp del: neq0_conv)
  ultimately show ?thesis
    using normalised_counts [OF pos] by blast
qed

lemma unique_support: "set (np_unique xs) = set xs"
  by (simp add: np_unique_def)

lemma distribution_properties:
  assumes "xs \<noteq> []" "mass_distribution self xs = Inr dd"
  shows "length (snd dd) = length (fst dd) \<and> sum_list (snd dd) = 1
         \<and> (\<forall>q \<in> set (snd dd). 0 < q)
         \<and> (\<not> histogram self \<longrightarrow> set (fst dd) = set xs)"
proof (cases "histogram self")
  case False
  from unique_distribution [OF False assms(1)] assms(2) False
  show ?thesis by (auto simp: unique_support)
next
  case True
  have "0 < bins self xs"
    using assms(2) True by (cases "0 < bins self xs") (simp_all add: mass_distribution_def)
  from histogram_distribution [OF True this assms(1)] assms(2) True
  show ?thesis by auto
qed

lemma sws_returns:
  assumes "sliding_window_statistics self draws a s d = Inr (N, lac)"
  shows "window_results self draws a s d \<noteq> []
    \<and> (if sum_list (map fst (window_results self draws a s d)) = 0 then lac = None
        else \<exists>dd. mass_distribution self
                     (map (\<lambda>m. m / of_int (sum_list (map fst (window_results self draws a s d))))
                        (map snd (window_results self draws a s d))) = Inr dd
                  \<and> lac = lacunarity_of dd)"
  using assms unfolding sliding_window_statistics_def Let_def
  by (auto split: if_splits sum.splits)

lemma touched_count:
  "sum_list (map fst (window_results self draws a s d))
   = int (length (filter (\<lambda>r. fst r = 1) (window_results self draws a s d)))"
proof -
  have "sum_list (map fst (map Worker ws)) = int (length (filter (\<lambda>r. fst r = 1) (map Worker ws)))"
    for ws
  proof (induction ws)
    case Nil
    show ?case by simp
  next
    case (Cons w ws)
    then show ?case
      using Worker_touched_range [of w] by auto
  qed
  from this [of "map (window_at a s d) (sampled_positions self draws
          (ndindex (map nat (window_counts (shape a) s d))))"]
  show ?thesis
    by (simp add: window_results_def comp_def)
qed

text \<open>
  Claim C1, as amended. Whenever the scan of a scale returns, the lacunarity
  is computed from the masses of all evaluated windows, touched or not: every
  mass is divided by the number of touched windows, and the distribution
  (histogram or unique values, empty support removed, probabilities summing
  to 1) is formed over all these normalised masses, so that in the
  unique-value mode the support is exactly the set of the normalised masses of
  all evaluated windows. When no window is touched the result is not a
  number.
\<close>

theorem lacunarity_from_all_windows:
  assumes "sliding_window_statistics self draws a s d = Inr (N, lac)"
  shows "(let results = window_results self draws a s d;
              count = int (length (filter (\<lambda>r. fst r = 1) results));
              normalized = map (\<lambda>r. snd r / of_int count) results
          in results \<noteq> []
             \<and> (if count = 0 then lac = None
                 else \<exists>centers p. mass_distribution self normalized = Inr (centers, p)
                        \<and> lac = lacunarity_of (centers, p)
                        \<and> length p = length centers \<and> sum_list p = 1
                        \<and> (\<forall>q \<in> set p. 0 < q)
                        \<and> (\<not> histogram self \<longrightarrow> set centers = set normalized)))"
proof -
  let ?rs = "window_results self draws a s d"
  let ?count = "int (length (filter (\<lambda>r. fst r = 1) ?rs))"
  let ?norm = "map (\<lambda>r. snd r / of_int ?count) ?rs"
  note r = sws_returns [OF assms, unfolded touched_count]
  have ne: "?rs \<noteq> []" using r by simp
  have nm: "map (\<lambda>m. m / of_int ?count) (map snd ?rs) = ?norm"
    by (simp add: comp_def)
  have "\<exists>centers p. mass_distribution self ?norm = Inr (centers, p)
                        \<and> lac = lacunarity_of (centers, p)
                        \<and> length p = length centers \<and> sum_list p = 1
                        \<and> (\<forall>q \<in> set p. 0 < q)
                        \<and> (\<not> histogram self \<longrightarrow> set centers = set ?norm)"
    if "?count \<noteq> 0"
  proof -
    from r that obtain dd where dd: "mass_distribution self ?norm = Inr dd"
      and lac: "lac = lacunarity_of dd"
      unfolding nm by auto
    have "?norm \<noteq> []" using ne by simp
    from distribution_properties [OF this dd] dd lac
    show ?thesis by (cases dd) auto
  qed
  moreover have "lac = None" if "?count = 0"
    using r that by simp
  ultimately show ?thesis
    unfolding Let_def using ne by simp
qed

theorem lacunarity_from_all_windows_witness:
  "sliding_window_statistics est_default (\<lambda>_. True) half_line 1 1 = Inr (1, Some 2)
   \<and> window_results est_default (\<lambda>_. True) half_line 1 1 \<noteq> []"
proof -
  have h: "sliding_window_statistics est_default (\<lambda>_. True) half_line 1 1 = Inr (1, Some 2)"
    by code_simp
  show ?thesis
    using h lacunarity_from_all_windows [OF h] unfolding Let_def by blast
qed

theorem touched_only_counterexample:
  "sliding_window_statistics est_default (\<lambda>_. True) half_line 1 1 = Inr (1, Some 2)
   \<and> touched_only_lacunarity est_default
        (window_results est_default (\<lambda>_. True) half_line 1 1) = Inr (Some 1)"
  by code_simp


section \<open>The fitted series\<close>

text \<open>
  Claim C4, at an input with a box count of zero: scales 1, 2, 4 with counts
  1, 0, 1 (the counts of \<open>sparse_line\<close> at stride 1). The claim pairs the
  count 1 with scale 1; \<open>linear_fit\<close> truncates the scale list from the
  front and fits the count 1 against scale 2, the scale of the discarded
  count 0. On the example of the specification, where every count is
  positive, the two agree.
\<close>

theorem fit_series_misaligned:
  "fit_series [1, 2, 4] [1, 0, 1] = Inr ([2], [1])
   \<and> claimed_fit_pairs [1, 2, 4] [1, 0, 1] = [(1, 1)]
   \<and> fit_series [8, 8, 4, 2] [5, 5, 10, 40] = Inr ([8, 4, 2], [5, 10, 40])
   \<and> claimed_fit_pairs [8, 8, 4, 2] [5, 5, 10, 40] = [(8, 5), (4, 10), (2, 40)]"
  by code_simp

lemma sparse_line_counts:
  "map (\<lambda>s. sliding_window_statistics est_default (\<lambda>_. True) sparse_line s 1) [1, 2, 4]
   = [Inr (1, Some 4), Inr (0, Some 3), Inr (1, Some 1)]"
  by code_simp

end
